theory Spec2Isabelle
  imports Main "HOL-Library.Word"
begin

section \<open>The data model of ppm.h\<close>

text \<open>
  Modelled from the spec: the header file ppm.h, which declares \<open>enum PPM_TYPE\<close>,
  \<open>pixel_t\<close> and \<open>img_t\<close>, is not among the sources. The spec's data model gives a pixel
  three unsigned 8-bit components; ppm.c reads and writes each of them as one byte,
  prints the dimensions of an image with \<open>%d\<close> and passes them to \<open>alloc_img\<close> as
  \<open>int\<close>. A C \<open>int\<close> and a C \<open>unsigned int\<close> are both 32-bit words here; \<open>sint\<close> reads the
  former, \<open>unat\<close> the latter. The row pointers \<open>pix2d\<close> are derived from \<open>pix1d\<close> and
  are left out of the record; their allocation is kept in \<open>alloc_img\<close>.
\<close>

datatype PPM_TYPE = PPM_ASCII | PPM_RAW

record pixel_t =
  r :: "8 word"
  g :: "8 word"
  b :: "8 word"

text \<open>The struct \<open>ppm_header_t\<close> of ppm.c.\<close>

record ppm_header_t =
  type :: PPM_TYPE
  width :: "32 word"
  height :: "32 word"
  maxval :: "32 word"
  data_offset :: int

record img_t =
  width :: "32 word"
  height :: "32 word"
  pix1d :: "pixel_t list"

section \<open>The environment: files, the heap, the C library\<close>

text \<open>
  A file is the list of its bytes (a C \<open>char\<close> is an Isabelle \<open>char\<close>). \<open>fopen(name, "r")\<close>
  fails where \<open>data\<close> has no entry, \<open>fopen(name, "w")\<close> fails where \<open>locked\<close> holds and
  otherwise truncates the file. Writes to an open file always succeed in this model
  (ppm.c never looks at the result of \<open>fprintf\<close>, \<open>fwrite\<close> or \<open>fclose\<close>).
\<close>

record filesys =
  data :: "string \<Rightarrow> string option"
  locked :: "string \<Rightarrow> bool"

definition fopen_r :: "filesys \<Rightarrow> string \<Rightarrow> string option" where
  "fopen_r fs filename = data fs filename"

definition fopen_w :: "filesys \<Rightarrow> string \<Rightarrow> filesys option" where
  "fopen_w fs filename =
     (if locked fs filename then None
      else Some (fs\<lparr>data := (data fs)(filename \<mapsto> [])\<rparr>))"

text \<open>
  The heap answers each of the three \<open>malloc\<close> calls of \<open>alloc_img\<close> (call number, size
  in bytes as a 64-bit \<open>size_t\<close>) and gives the indeterminate content of the fresh
  pixel array.
\<close>

record heap =
  malloc_ok :: "nat \<Rightarrow> 64 word \<Rightarrow> bool"
  fresh :: "nat \<Rightarrow> pixel_t"

text \<open>
  Modelled from the spec: sizes of the types of the missing ppm.h on the LP64 platform
  of the Makefile (gcc): three one-byte components, two ints and two pointers, a pointer.
\<close>

definition sizeof_pixel_t :: "64 word" where
  "sizeof_pixel_t = 3"

definition sizeof_img_t :: "64 word" where
  "sizeof_img_t = 24"

definition sizeof_ptr :: "64 word" where
  "sizeof_ptr = 8"

text \<open>\<open>isspace\<close> in the C locale: what a white-space directive of \<open>scanf\<close> skips.\<close>

definition isspace :: "char \<Rightarrow> bool" where
  "isspace c \<longleftrightarrow>
     c = CHR '' '' \<or> c = CHR 0x09 \<or> c = CHR 0x0A \<or> c = CHR 0x0B \<or> c = CHR 0x0C \<or> c = CHR 0x0D"

definition isdigit :: "char \<Rightarrow> bool" where
  "isdigit c \<longleftrightarrow> 48 \<le> (of_char c :: nat) \<and> (of_char c :: nat) \<le> 57"

definition digit_val :: "char \<Rightarrow> int" where
  "digit_val c = of_char c - 48"

definition skip_ws :: "string \<Rightarrow> string" where
  "skip_ws f = dropWhile isspace f"

text \<open>A character array read as a C string ends at its first NUL.\<close>

definition c_str :: "string \<Rightarrow> string" where
  "c_str buf = takeWhile (\<lambda>c. c \<noteq> CHR 0x00) buf"

text \<open>
  The conversion \<open>%u\<close> of \<open>scanf\<close>: skip white space, take an optional sign and a
  non-empty run of decimal digits. The value is converted as \<open>strtoul\<close> does and stored
  in an \<open>unsigned int\<close>: clamped at \<open>ULONG_MAX\<close> (2 to the 64th less one), negated
  after a minus sign, truncated to 32 bits (the C standard leaves a value that does
  not fit undefined; this is what glibc and musl do).
\<close>

fun strtoul_digits :: "int \<Rightarrow> string \<Rightarrow> int \<times> string" where
  "strtoul_digits acc [] = (acc, [])"
| "strtoul_digits acc (c # cs) =
     (if isdigit c then strtoul_digits (10 * acc + digit_val c) cs else (acc, c # cs))"

definition conv_u :: "bool \<Rightarrow> int \<Rightarrow> 32 word" where
  "conv_u neg n =
     (if 18446744073709551616 \<le> n then of_int 18446744073709551615
      else if neg then of_int (- n) else of_int n)"

definition scan_sign :: "string \<Rightarrow> bool \<times> string" where
  "scan_sign s =
     (case s of [] \<Rightarrow> (False, [])
      | c # cs \<Rightarrow> if c = CHR ''-'' then (True, cs)
                 else if c = CHR ''+'' then (False, cs) else (False, c # cs))"

definition scan_u :: "string \<Rightarrow> (32 word \<times> string) option" where
  "scan_u s =
     (case snd (scan_sign (skip_ws s)) of [] \<Rightarrow> None
      | d # ds \<Rightarrow>
          if isdigit d
          then Some (conv_u (fst (scan_sign (skip_ws s))) (fst (strtoul_digits 0 (d # ds))),
                     snd (strtoul_digits 0 (d # ds)))
          else None)"

text \<open>
  \<open>sscanf(line, "%u %u", &w, &h)\<close> and \<open>sscanf(line, "%u ", &m)\<close>: the callers compare the
  number of matches with 2 and with 1, so the model returns the values when that many
  conversions matched and \<open>None\<close> otherwise.
\<close>

definition sscanf_u_u :: "string \<Rightarrow> (32 word \<times> 32 word) option" where
  "sscanf_u_u line =
     (case scan_u line of None \<Rightarrow> None
      | Some (w, rest) \<Rightarrow>
          (case scan_u rest of None \<Rightarrow> None | Some (h, _) \<Rightarrow> Some (w, h)))"

definition sscanf_u :: "string \<Rightarrow> 32 word option" where
  "sscanf_u line = (case scan_u line of None \<Rightarrow> None | Some (m, _) \<Rightarrow> Some m)"

text \<open>\<open>fscanf(f, "%u %u %u", &r, &g, &b)\<close> returning 3, with the stream after it.\<close>

definition fscanf_u_u_u :: "string \<Rightarrow> ((32 word \<times> 32 word \<times> 32 word) \<times> string) option" where
  "fscanf_u_u_u f =
     (case scan_u f of None \<Rightarrow> None
      | Some (rv, f1) \<Rightarrow>
          (case scan_u f1 of None \<Rightarrow> None
           | Some (gv, f2) \<Rightarrow>
               (case scan_u f2 of None \<Rightarrow> None
                | Some (bv, f3) \<Rightarrow> Some ((rv, gv, bv), f3))))"

text \<open>\<open>fread(p, 1, 1, f)\<close>: one byte into \<open>*p\<close>, or nothing at the end of the file.\<close>

definition byte_of :: "char \<Rightarrow> 8 word" where
  "byte_of c = of_nat (of_char c)"

definition char_of_byte :: "8 word \<Rightarrow> char" where
  "char_of_byte w = char_of (unat w)"

definition fread1 :: "8 word \<Rightarrow> string \<Rightarrow> 8 word \<times> string" where
  "fread1 old f = (case f of [] \<Rightarrow> (old, []) | c # cs \<Rightarrow> (byte_of c, cs))"

text \<open>The conversion \<open>%d\<close> of \<open>printf\<close>.\<close>

definition digit_char :: "nat \<Rightarrow> char" where
  "digit_char d = char_of (48 + d)"

function print_u :: "nat \<Rightarrow> string" where
  "print_u n = (if n < 10 then [digit_char n] else print_u (n div 10) @ [digit_char (n mod 10)])"
  by pat_completeness auto
termination
  by (relation "measure id") auto

definition print_d :: "int \<Rightarrow> string" where
  "print_d i = (if i < 0 then CHR ''-'' # print_u (nat (- i)) else print_u (nat i))"

section \<open>ppm.c\<close>

subsection \<open>alloc_img\<close>

text \<open>
  The sizes are computed in \<open>size_t\<close>, to which the \<open>int\<close> arguments are converted by
  sign extension. The fresh pixel array has as many elements as the bytes asked for
  hold.
\<close>

definition size_of_int :: "32 word \<Rightarrow> 64 word" where
  "size_of_int i = of_int (sint i)"

definition alloc_img :: "heap \<Rightarrow> 32 word \<Rightarrow> 32 word \<Rightarrow> img_t option" where
  "alloc_img hp w h =
     (if \<not> malloc_ok hp 0 sizeof_img_t then None
      else if \<not> malloc_ok hp 1 (sizeof_pixel_t * size_of_int w * size_of_int h) then None
      else if \<not> malloc_ok hp 2 (sizeof_ptr * size_of_int h) then None
      else Some \<lparr>width = w, height = h,
                 pix1d = map (fresh hp)
                   [0 ..< unat (sizeof_pixel_t * size_of_int w * size_of_int h) div unat sizeof_pixel_t]\<rparr>)"

subsection \<open>write_ppm\<close>

text \<open>
  The two loops run \<open>i\<close> from 0 while \<open>i < img->width * img->height\<close>, a product of
  \<open>int\<close>s (taken with two's complement wrap-around where it overflows, which C leaves
  undefined). The text loop keeps its own \<open>count\<close>.
\<close>

definition fwrite_pixel :: "pixel_t \<Rightarrow> string" where
  "fwrite_pixel p = [char_of_byte (r p), char_of_byte (g p), char_of_byte (b p)]"

definition fprintf_pixel :: "pixel_t \<Rightarrow> string" where
  "fprintf_pixel p =
     print_d (uint (r p)) @ '' '' @ print_d (uint (g p)) @ '' '' @ print_d (uint (b p)) @ '' ''"

function write_raw :: "img_t \<Rightarrow> int \<Rightarrow> string" where
  "write_raw img i =
     (if i < sint (width img * height img)
      then fwrite_pixel (pix1d img ! nat i) @ write_raw img (i + 1)
      else [])"
  by pat_completeness auto
termination
  by (relation "measure (\<lambda>(img, i). nat (sint (width img * height img) - i))") auto

function write_ascii :: "img_t \<Rightarrow> int \<Rightarrow> int \<Rightarrow> string" where
  "write_ascii img i count =
     (if i < sint (width img * height img)
      then fprintf_pixel (pix1d img ! nat i)
           @ (if (count + 1) mod 5 = 0 then [CHR 0x0A] else [])
           @ write_ascii img (i + 1) (count + 1)
      else [])"
  by pat_completeness auto
termination
  by (relation "measure (\<lambda>(img, i, count). nat (sint (width img * height img) - i))") auto

definition fprintf_header :: "string \<Rightarrow> img_t \<Rightarrow> string" where
  "fprintf_header tag img =
     tag @ [CHR 0x0A] @ print_d (sint (width img)) @ '' '' @ print_d (sint (height img))
     @ [CHR 0x0A] @ ''255'' @ [CHR 0x0A]"

definition write_ppm :: "filesys \<Rightarrow> string \<Rightarrow> img_t \<Rightarrow> PPM_TYPE \<Rightarrow> bool \<times> filesys" where
  "write_ppm fs filename img ty =
     (case fopen_w fs filename of None \<Rightarrow> (False, fs)
      | Some fs' \<Rightarrow>
          (True, fs'\<lparr>data := (data fs')(filename \<mapsto>
             (if ty = PPM_RAW then fprintf_header ''P6'' img @ write_raw img 0
              else fprintf_header ''P3'' img @ write_ascii img 0 0))\<rparr>))"

subsection \<open>readline\<close>

text \<open>
  One turn of the loop: \<open>fscanf(f, "%1024[^\n]", line)\<close> stores up to \<open>max_line_length\<close>
  characters other than a newline and leaves \<open>line\<close> as it was when there is none (a
  newline comes first, or the file has ended); \<open>fscanf(f, "\n")\<close> then skips all white
  space. The loop goes on while \<open>line[0]\<close> is \<open>#\<close>, for ever if need be: \<open>None\<close> is
  "does not return". The static counter \<open>line_nb\<close> decides nothing and is left out.
\<close>

definition scanset :: "nat \<Rightarrow> string \<Rightarrow> string" where
  "scanset n f = take n (takeWhile (\<lambda>c. c \<noteq> CHR 0x0A) f)"

definition line_after :: "nat \<Rightarrow> string \<Rightarrow> string \<Rightarrow> string" where
  "line_after n f line = (if scanset n f = [] then line else c_str (scanset n f))"

definition stream_after :: "nat \<Rightarrow> string \<Rightarrow> string" where
  "stream_after n f = skip_ws (drop (length (scanset n f)) f)"

definition is_comment :: "string \<Rightarrow> bool" where
  "is_comment line = (case line of [] \<Rightarrow> False | c # _ \<Rightarrow> c = CHR ''#'')"

partial_function (option) readline :: "string \<Rightarrow> string \<Rightarrow> nat \<Rightarrow> (string \<times> string) option" where
  "readline f line max_line_length =
     (if is_comment (line_after max_line_length f line)
      then readline (stream_after max_line_length f) (line_after max_line_length f line)
             max_line_length
      else Some (line_after max_line_length f line, stream_after max_line_length f))"

declare readline.simps [code]

subsection \<open>load_header\<close>

text \<open>
  The exits of \<open>load_header\<close> and \<open>load_ppm\<close>, named after the spec's error taxonomy
  where it has a name for them. C returns \<open>NULL\<close> at each of them: \<open>returned\<close> is the
  pointer the caller gets, \<open>diagnostic\<close> what the exit prints on \<open>stderr\<close>. A result
  \<open>None\<close> of \<open>load_header\<close> or \<open>load_ppm\<close> is a call that does not return.
\<close>

datatype failure =
  SourceUnavailable
  | UnsupportedFormat
  | MalformedHeader
  | UnsupportedRange
  | AllocationFailed
  | MalformedPixelData
  | ComponentOutOfRange

definition diagnostic :: "failure \<Rightarrow> string" where
  "diagnostic e =
     (if e = UnsupportedFormat then ''PPM reader: unsupported format!'' @ [CHR 0x0A]
      else if e = UnsupportedRange
      then ''PPM reader: doesn't support more than 1 byte per component!'' @ [CHR 0x0A]
      else [])"

definition returned :: "failure + 'a \<Rightarrow> 'a option" where
  "returned x = (case x of Inl e \<Rightarrow> None | Inr v \<Rightarrow> Some v)"

definition MAX_LENGTH :: nat where
  "MAX_LENGTH = 1024"

text \<open>
  The local buffer \<open>line\<close> is not initialised: \<open>line0\<close> is the C string it happens to
  hold when \<open>load_header\<close> starts. The \<open>calloc\<close> of the header is taken to succeed (the
  code uses its result unchecked).
\<close>

definition header_maxval ::
  "string \<Rightarrow> PPM_TYPE \<Rightarrow> 32 word \<Rightarrow> 32 word \<Rightarrow> string \<Rightarrow> string
     \<Rightarrow> (failure + ppm_header_t) option" where
  "header_maxval src ty w h f line =
     (case readline f line MAX_LENGTH of None \<Rightarrow> None
      | Some (line3, f3) \<Rightarrow>
          (case sscanf_u line3 of None \<Rightarrow> Some (Inl MalformedHeader)
           | Some m \<Rightarrow>
               if m > 255 then Some (Inl UnsupportedRange)
               else Some (Inr \<lparr>type = ty, width = w, height = h, maxval = m,
                               data_offset = int (length src) - int (length f3)\<rparr>)))"

definition header_dims ::
  "string \<Rightarrow> PPM_TYPE \<Rightarrow> string \<Rightarrow> string \<Rightarrow> (failure + ppm_header_t) option" where
  "header_dims src ty f line =
     (case readline f line MAX_LENGTH of None \<Rightarrow> None
      | Some (line2, f2) \<Rightarrow>
          (case sscanf_u_u line2 of None \<Rightarrow> Some (Inl MalformedHeader)
           | Some (w, h) \<Rightarrow> header_maxval src ty w h f2 line2))"

definition load_header :: "filesys \<Rightarrow> string \<Rightarrow> string \<Rightarrow> (failure + ppm_header_t) option" where
  "load_header fs line0 filename =
     (case fopen_r fs filename of None \<Rightarrow> Some (Inl SourceUnavailable)
      | Some src \<Rightarrow>
          (case readline src line0 MAX_LENGTH of None \<Rightarrow> None
           | Some (line1, f1) \<Rightarrow>
               if line1 = ''P3'' then header_dims src PPM_ASCII f1 line1
               else if line1 = ''P6'' then header_dims src PPM_RAW f1 line1
               else Some (Inl UnsupportedFormat)))"

subsection \<open>load_ppm\<close>

function load_ascii ::
  "32 word \<Rightarrow> nat \<Rightarrow> nat \<Rightarrow> string \<Rightarrow> pixel_t list \<Rightarrow> failure + pixel_t list" where
  "load_ascii mv n i f pix =
     (if i < n
      then (case fscanf_u_u_u f of None \<Rightarrow> Inl MalformedPixelData
            | Some ((rv, gv, bv), f') \<Rightarrow>
                if rv > mv \<or> gv > mv \<or> bv > mv then Inl ComponentOutOfRange
                else load_ascii mv n (Suc i) f'
                       (pix[i := \<lparr>r = ucast rv, g = ucast gv, b = ucast bv\<rparr>]))
      else Inr pix)"
  by pat_completeness auto
termination
  by (relation "measure (\<lambda>(mv, n, i, f, pix). n - i)") auto

definition fread_pixel :: "pixel_t \<Rightarrow> string \<Rightarrow> pixel_t \<times> string" where
  "fread_pixel p f =
     (\<lparr>r = fst (fread1 (r p) f),
       g = fst (fread1 (g p) (snd (fread1 (r p) f))),
       b = fst (fread1 (b p) (snd (fread1 (g p) (snd (fread1 (r p) f)))))\<rparr>,
      snd (fread1 (b p) (snd (fread1 (g p) (snd (fread1 (r p) f))))))"

function load_raw :: "nat \<Rightarrow> nat \<Rightarrow> string \<Rightarrow> pixel_t list \<Rightarrow> pixel_t list" where
  "load_raw n i f pix =
     (if i < n
      then load_raw n (Suc i) (snd (fread_pixel (pix ! i) f)) (pix[i := fst (fread_pixel (pix ! i) f)])
      else pix)"
  by pat_completeness auto
termination
  by (relation "measure (\<lambda>(n, i, f, pix). n - i)") auto

definition load_pixels :: "ppm_header_t \<Rightarrow> img_t \<Rightarrow> string \<Rightarrow> (failure + img_t) option" where
  "load_pixels header img src =
     (if type header = PPM_ASCII
      then (case load_ascii (maxval header)
                   (unat (ppm_header_t.width header * ppm_header_t.height header)) 0
                   (drop (nat (data_offset header)) src) (pix1d img) of
              Inl e \<Rightarrow> Some (Inl e)
            | Inr pix \<Rightarrow> Some (Inr (img\<lparr>pix1d := pix\<rparr>)))
      else Some (Inr (img\<lparr>pix1d :=
             load_raw (unat (ppm_header_t.width header * ppm_header_t.height header)) 0
               (drop (nat (data_offset header)) src) (pix1d img)\<rparr>)))"

definition load_ppm :: "filesys \<Rightarrow> heap \<Rightarrow> string \<Rightarrow> string \<Rightarrow> (failure + img_t) option" where
  "load_ppm fs hp line0 filename =
     (case load_header fs line0 filename of None \<Rightarrow> None
      | Some (Inl e) \<Rightarrow> Some (Inl e)
      | Some (Inr header) \<Rightarrow>
          (case alloc_img hp (ppm_header_t.width header) (ppm_header_t.height header) of
             None \<Rightarrow> Some (Inl AllocationFailed)
           | Some img \<Rightarrow>
               (case fopen_r fs filename of None \<Rightarrow> Some (Inl SourceUnavailable)
                | Some src \<Rightarrow> load_pixels header img src)))"

section \<open>Concrete environments\<close>

definition one_file :: "string \<Rightarrow> string \<Rightarrow> filesys" where
  "one_file name bytes =
     \<lparr>data = (\<lambda>n. if n = name then Some bytes else None), locked = (\<lambda>n. False)\<rparr>"

definition small_heap :: "pixel_t \<Rightarrow> heap" where
  "small_heap p = \<lparr>malloc_ok = (\<lambda>i sz. sz \<le> 4096), fresh = (\<lambda>i. p)\<rparr>"

definition junk_pixel :: pixel_t where
  "junk_pixel = \<lparr>r = 7, g = 8, b = 9\<rparr>"

section \<open>Notions of the spec\<close>

text \<open>"After trimming": without the white space at either end.\<close>

definition trimmed :: "string \<Rightarrow> string" where
  "trimmed s = rev (skip_ws (rev (skip_ws s)))"

text \<open>
  "Exactly two whitespace-separated non-negative integers": the tokens of a line are its
  maximal runs of characters other than white space; a non-negative integer is a
  non-empty run of decimal digits.
\<close>

fun split_ws :: "string \<Rightarrow> string \<Rightarrow> string list" where
  "split_ws cur [] = (if cur = [] then [] else [cur])"
| "split_ws cur (c # cs) =
     (if isspace c then (if cur = [] then split_ws [] cs else cur # split_ws [] cs)
      else split_ws (cur @ [c]) cs)"

definition tokens :: "string \<Rightarrow> string list" where
  "tokens line = split_ws [] line"

definition is_unsigned :: "string \<Rightarrow> bool" where
  "is_unsigned tok \<longleftrightarrow> tok \<noteq> [] \<and> list_all isdigit tok"

definition two_integers :: "string \<Rightarrow> bool" where
  "two_integers line \<longleftrightarrow>
     length (tokens line) = 2 \<and> list_all is_unsigned (tokens line)"

text \<open>
  What the code asks of the dimensions line instead: that it begins, after optional
  white space, with an integer (an optional sign and at least one digit), and that what
  follows the digits of that integer begins with an integer in the same way.
\<close>

definition begins_integer :: "string \<Rightarrow> bool" where
  "begins_integer s =
     (case skip_ws s of [] \<Rightarrow> False
      | c # cs \<Rightarrow>
          if c = CHR ''+'' \<or> c = CHR ''-''
          then (case cs of [] \<Rightarrow> False | d # _ \<Rightarrow> isdigit d)
          else isdigit c)"

definition after_integer :: "string \<Rightarrow> string" where
  "after_integer s =
     (case skip_ws s of [] \<Rightarrow> []
      | c # cs \<Rightarrow>
          dropWhile isdigit (if c = CHR ''+'' \<or> c = CHR ''-'' then cs else c # cs))"

definition begins_two_integers :: "string \<Rightarrow> bool" where
  "begins_two_integers line \<longleftrightarrow>
     begins_integer line \<and> begins_integer (after_integer line)"

text \<open>
  A comment line: \<open>#\<close>, then characters other than a newline, then the newline. The
  stream and the buffer \<open>line\<close> as they are when \<open>load_header\<close> is about to read its
  header line number \<open>k\<close> (0 for the format tag, 1 for the dimensions, 2 for the maximum
  value).
\<close>

definition comment_line :: "string \<Rightarrow> bool" where
  "comment_line l =
     (case l of [] \<Rightarrow> False
      | c # cs \<Rightarrow>
          c = CHR ''#'' \<and> cs \<noteq> [] \<and> last cs = CHR 0x0A \<and> CHR 0x0A \<notin> set (butlast cs))"

fun header_stream :: "nat \<Rightarrow> string \<Rightarrow> string \<Rightarrow> (string \<times> string) option" where
  "header_stream 0 f line = Some (line, f)"
| "header_stream (Suc k) f line =
     (case readline f line MAX_LENGTH of None \<Rightarrow> None
      | Some (line', f') \<Rightarrow> header_stream k f' line')"

text \<open>The pixel data of a binary source: pixel \<open>k\<close> is the three bytes from offset \<open>3 * k\<close>.\<close>

definition raw_pixel :: "string \<Rightarrow> nat \<Rightarrow> pixel_t" where
  "raw_pixel f k =
     \<lparr>r = byte_of (f ! (3 * k)), g = byte_of (f ! (3 * k + 1)), b = byte_of (f ! (3 * k + 2))\<rparr>"

text \<open>
  The lines of a source, as the spec counts them: the runs of characters between
  newlines. A comment line is one whose first character is \<open>#\<close>.
\<close>

fun split_lines :: "string \<Rightarrow> string \<Rightarrow> string list" where
  "split_lines cur [] = [cur]"
| "split_lines cur (c # cs) =
     (if c = CHR 0x0A then cur # split_lines [] cs else split_lines (cur @ [c]) cs)"

definition source_lines :: "string \<Rightarrow> string list" where
  "source_lines src = split_lines [] src"

definition non_comment_lines :: "string \<Rightarrow> string list" where
  "non_comment_lines src = filter (\<lambda>l. \<not> is_comment l) (source_lines src)"

text \<open>
  The header lines that \<open>readline\<close> delivers as they stand in the source: a plain line
  is not empty, has at most \<open>MAX_LENGTH\<close> characters, none of them a newline or a NUL,
  and starts with neither white space nor \<open>#\<close>. A short comment is a comment line of at
  most \<open>MAX_LENGTH\<close> characters before its newline. A line ends where the source ends
  or a newline comes.
\<close>

definition plain_line :: "string \<Rightarrow> bool" where
  "plain_line l \<longleftrightarrow>
     l \<noteq> [] \<and> length l \<le> MAX_LENGTH \<and> CHR 0x0A \<notin> set l \<and> CHR 0x00 \<notin> set l
     \<and> \<not> isspace (hd l) \<and> hd l \<noteq> CHR ''#''"

definition short_comment :: "string \<Rightarrow> bool" where
  "short_comment l \<longleftrightarrow> comment_line l \<and> length l \<le> Suc MAX_LENGTH"

definition line_end :: "string \<Rightarrow> bool" where
  "line_end rest \<longleftrightarrow> rest = [] \<or> hd rest = CHR 0x0A"

text \<open>The integer that a run of decimal digits denotes.\<close>

definition decimal :: "string \<Rightarrow> int" where
  "decimal ds = foldl (\<lambda>a c. 10 * a + digit_val c) 0 ds"

text \<open>
  The pixel data of a text source written as numbers: a number is a run of white space
  followed by a run of decimal digits that denotes a value an \<open>unsigned int\<close> can hold;
  every number but the first of the data has some white space before it; a pixel is
  three numbers.
\<close>

type_synonym number_text = "string \<times> string"

definition number_text :: "number_text \<Rightarrow> string" where
  "number_text t = fst t @ snd t"

definition number_ok :: "number_text \<Rightarrow> bool" where
  "number_ok t \<longleftrightarrow>
     list_all isspace (fst t) \<and> is_unsigned (snd t) \<and> decimal (snd t) < 4294967296"

definition separated :: "number_text list \<Rightarrow> bool" where
  "separated ts \<longleftrightarrow> list_all (\<lambda>t. fst t \<noteq> []) (tl ts)"

definition pixel_numbers :: "(number_text \<times> number_text \<times> number_text) list \<Rightarrow> number_text list" where
  "pixel_numbers ps = concat (map (\<lambda>(x, y, z). [x, y, z]) ps)"

definition pixel_within :: "32 word \<Rightarrow> number_text \<times> number_text \<times> number_text \<Rightarrow> bool" where
  "pixel_within mv p =
     (case p of (x, y, z) \<Rightarrow>
        decimal (snd x) \<le> uint mv \<and> decimal (snd y) \<le> uint mv \<and> decimal (snd z) \<le> uint mv)"

section \<open>Evaluation\<close>

declare print_u.simps [simp del]
declare write_raw.simps [simp del]
declare write_ascii.simps [simp del]
declare load_ascii.simps [simp del]
declare load_raw.simps [simp del]

lemmas libc_eval = isspace_def isdigit_def digit_val_def skip_ws_def c_str_def conv_u_def
  scan_sign_def scan_u_def sscanf_u_u_def sscanf_u_def fscanf_u_u_u_def byte_of_def
  char_of_byte_def fread1_def digit_char_def print_u.simps print_d_def fopen_r_def
  fopen_w_def char_of_def bit_0

lemmas ppm_eval = sizeof_pixel_t_def sizeof_img_t_def sizeof_ptr_def size_of_int_def
  alloc_img_def fwrite_pixel_def fprintf_pixel_def fprintf_header_def write_raw.simps
  write_ascii.simps write_ppm_def scanset_def line_after_def stream_after_def
  is_comment_def readline.simps MAX_LENGTH_def header_maxval_def header_dims_def
  load_header_def load_ascii.simps fread_pixel_def load_raw.simps load_pixels_def
  load_ppm_def returned_def upt_rec

lemmas env_eval = one_file_def small_heap_def junk_pixel_def

lemmas spec_eval = trimmed_def tokens_def is_unsigned_def two_integers_def begins_integer_def
  after_integer_def begins_two_integers_def comment_line_def raw_pixel_def
  numeral_2_eq_2 numeral_3_eq_3

lemmas shape_eval = source_lines_def non_comment_lines_def plain_line_def short_comment_def
  line_end_def decimal_def number_text_def number_ok_def separated_def pixel_numbers_def
  pixel_within_def

section \<open>Storing\<close>

text \<open>
  C5, as amended. Storing the 1x1 image whose pixel is (255, 0, 128) in the binary
  variant writes the header text "P6", newline, "1 1", newline, "255", newline and then
  the three bytes 0xFF, 0x00, 0x80 and nothing else: 14 bytes in all (the header text
  is 11 bytes long), wherever the destination can be opened.
\<close>

theorem write_ppm_one_pixel_raw:
  assumes "\<not> locked fs filename"
  shows "fst (write_ppm fs filename
                \<lparr>width = 1, height = 1, pix1d = [\<lparr>r = 255, g = 0, b = 128\<rparr>]\<rparr> PPM_RAW)
         \<and> data (snd (write_ppm fs filename
                \<lparr>width = 1, height = 1, pix1d = [\<lparr>r = 255, g = 0, b = 128\<rparr>]\<rparr> PPM_RAW))
               filename
             = Some (''P6'' @ [CHR 0x0A] @ ''1 1'' @ [CHR 0x0A] @ ''255'' @ [CHR 0x0A]
                     @ [CHR 0xFF, CHR 0x00, CHR 0x80])
         \<and> length (''P6'' @ [CHR 0x0A] @ ''1 1'' @ [CHR 0x0A] @ ''255'' @ [CHR 0x0A]
                     @ [CHR 0xFF, CHR 0x00, CHR 0x80]) = 14"
  using assms by (simp add: libc_eval ppm_eval)

theorem write_ppm_one_pixel_raw_witness:
  "\<not> locked (one_file ''in'' []) ''out''
   \<and> data (snd (write_ppm (one_file ''in'' []) ''out''
                \<lparr>width = 1, height = 1, pix1d = [\<lparr>r = 255, g = 0, b = 128\<rparr>]\<rparr> PPM_RAW))
               ''out''
       = Some (''P6'' @ [CHR 0x0A] @ ''1 1'' @ [CHR 0x0A] @ ''255'' @ [CHR 0x0A]
               @ [CHR 0xFF, CHR 0x00, CHR 0x80])"
proof -
  have open_ok: "\<not> locked (one_file ''in'' []) ''out''"
    by (simp add: one_file_def)
  show ?thesis
    using open_ok write_ppm_one_pixel_raw [OF open_ok] by simp
qed

text \<open>
  C5 as the spec states it asks for 15 bytes; the file written has 14.
\<close>

theorem write_ppm_one_pixel_raw_not_15_bytes:
  "map_option length
     (data (snd (write_ppm (one_file ''in'' []) ''out''
                   \<lparr>width = 1, height = 1, pix1d = [\<lparr>r = 255, g = 0, b = 128\<rparr>]\<rparr> PPM_RAW))
        ''out'') \<noteq> Some 15"
  by (simp add: libc_eval ppm_eval env_eval)

section \<open>Loading: defects of the binary path\<close>

text \<open>
  C1 (the code does not do what the claim says). A binary source with a valid header
  for a 2x1 image and only four of the six bytes of pixel data: \<open>load_ppm\<close> ignores the
  results of \<open>fread\<close> and returns an image, in which the components that were not
  read keep the indeterminate content of the fresh buffer. The text path does check
  the result of its read (\<open>matches != 3\<close>).
\<close>

theorem load_ppm_truncated_raw_returns_image:
  "load_ppm (one_file ''in'' ''P6\<newline>2 1\<newline>255\<newline>ABCD'') (small_heap junk_pixel) [] ''in''
     = Some (Inr \<lparr>width = 2, height = 1,
                      pix1d = [\<lparr>r = 65, g = 66, b = 67\<rparr>, \<lparr>r = 68, g = 8, b = 9\<rparr>]\<rparr>)"
  by (simp add: libc_eval ppm_eval env_eval)

text \<open>
  C2 (the code does not do what the claim says). The 1x1 image whose pixel is
  (10, 20, 30), stored in the binary variant and loaded again: the last \<open>readline\<close> of
  \<open>load_header\<close> skips all white space after the line "255", also the byte 10 of the
  red component, so the pixel data is read one byte late.
\<close>

theorem raw_round_trip_shifts_pixel_data:
  "load_ppm
     (snd (write_ppm (one_file ''in'' []) ''out''
             \<lparr>width = 1, height = 1, pix1d = [\<lparr>r = 10, g = 20, b = 30\<rparr>]\<rparr> PPM_RAW))
     (small_heap junk_pixel) [] ''out''
     = Some (Inr \<lparr>width = 1, height = 1, pix1d = [\<lparr>r = 20, g = 30, b = 9\<rparr>]\<rparr>)"
  by (simp add: libc_eval ppm_eval env_eval)

section \<open>The header\<close>

lemma tag_trimmed:
  "line = ''P6'' \<Longrightarrow> trimmed line = ''P6''" "line = ''P3'' \<Longrightarrow> trimmed line = ''P3''"
  by (simp_all add: trimmed_def skip_ws_def isspace_def)

lemma load_ppm_header_failure:
  "load_header fs line0 filename = Some (Inl e) \<Longrightarrow> load_ppm fs hp line0 filename = Some (Inl e)"
  by (simp add: load_ppm_def)

lemma strtoul_digits_rest:
  "snd (strtoul_digits acc s) = dropWhile isdigit s"
  by (induction s arbitrary: acc) simp_all

lemma sign_not_digit:
  "\<not> isdigit (CHR ''+'')" "\<not> isdigit (CHR ''-'')"
  by (simp_all add: isdigit_def)

lemma scan_u_None_iff:
  "scan_u s = None \<longleftrightarrow> \<not> begins_integer s"
  by (auto simp add: scan_u_def begins_integer_def scan_sign_def sign_not_digit
      split: list.splits if_splits)

lemma scan_u_rest:
  "scan_u s = Some (v, rest) \<Longrightarrow> rest = after_integer s"
  by (auto simp add: scan_u_def after_integer_def scan_sign_def strtoul_digits_rest
      simp del: strtoul_digits.simps split: list.splits if_splits)

lemma sscanf_u_u_None_iff:
  "sscanf_u_u line = None \<longleftrightarrow> \<not> begins_two_integers line"
proof (cases "scan_u line")
  case None
  then show ?thesis
    by (simp add: sscanf_u_u_def begins_two_integers_def scan_u_None_iff [symmetric])
next
  case (Some a)
  obtain v rest where a: "a = (v, rest)" by (cases a)
  with Some have rest: "rest = after_integer line"
    by (simp add: scan_u_rest)
  from Some have "begins_integer line"
    using scan_u_None_iff [of line] by simp
  with Some a rest show ?thesis
    by (cases "scan_u (after_integer line)")
       (auto simp add: sscanf_u_u_def begins_two_integers_def scan_u_None_iff [symmetric])
qed

subsection \<open>Reading the lines of a plain header\<close>

lemma newline_isspace:
  "isspace (CHR 0x0A)"
  by (simp add: isspace_def)

lemma hash_not_space:
  "\<not> isspace (CHR ''#'')"
  by (simp add: isspace_def)

lemma skip_ws_id:
  "X \<noteq> [] \<Longrightarrow> \<not> isspace (hd X) \<Longrightarrow> skip_ws X = X"
  by (cases X) (simp_all add: skip_ws_def)

lemma skip_ws_newline:
  "skip_ws (CHR 0x0A # X) = skip_ws X"
  by (simp add: skip_ws_def newline_isspace)

lemma takeWhile_line_end:
  "line_end rest \<Longrightarrow> takeWhile (\<lambda>c. c \<noteq> CHR 0x0A) rest = []"
  by (cases rest) (simp_all add: line_end_def)

lemma scanset_line:
  assumes "CHR 0x0A \<notin> set l" and "length l \<le> n" and "line_end rest"
  shows "scanset n (l @ rest) = l"
proof -
  have "takeWhile (\<lambda>c. c \<noteq> CHR 0x0A) (l @ rest) = l @ takeWhile (\<lambda>c. c \<noteq> CHR 0x0A) rest"
    using assms(1) by (intro takeWhile_append2) auto
  with assms(2,3) show ?thesis
    by (simp add: scanset_def takeWhile_line_end)
qed

lemma c_str_no_nul:
  "CHR 0x00 \<notin> set l \<Longrightarrow> c_str l = l"
  unfolding c_str_def by (rule takeWhile_eq_all_conv [THEN iffD2]) auto

lemma readline_plain_line:
  assumes "plain_line l" and "line_end rest"
  shows "readline (l @ rest) line MAX_LENGTH = Some (l, skip_ws rest)"
proof -
  from assms(1) have l: "l \<noteq> []" "length l \<le> MAX_LENGTH" "CHR 0x0A \<notin> set l"
    "CHR 0x00 \<notin> set l" "hd l \<noteq> CHR ''#''"
    by (simp_all add: plain_line_def)
  have scan: "scanset MAX_LENGTH (l @ rest) = l"
    using l(3,2) assms(2) by (rule scanset_line)
  have line: "line_after MAX_LENGTH (l @ rest) line = l"
    using l(1,4) by (simp add: line_after_def scan c_str_no_nul)
  have stream: "stream_after MAX_LENGTH (l @ rest) = skip_ws rest"
    by (simp add: stream_after_def scan)
  have "\<not> is_comment l"
    using l(1,5) by (cases l) (simp_all add: is_comment_def)
  then show ?thesis
    by (subst readline.simps) (simp add: line stream)
qed

lemma short_comment_split:
  assumes "short_comment cl"
  obtains body where "cl = (CHR ''#'' # body) @ [CHR 0x0A]" and "CHR 0x0A \<notin> set body"
    and "length (CHR ''#'' # body) \<le> MAX_LENGTH"
proof -
  from assms obtain cs where cl: "cl = CHR ''#'' # cs" and cs: "cs \<noteq> []"
    "last cs = CHR 0x0A" "CHR 0x0A \<notin> set (butlast cs)" and len: "length cl \<le> Suc MAX_LENGTH"
    by (cases cl) (auto simp add: short_comment_def comment_line_def)
  from cs(1,2) have "cs = butlast cs @ [CHR 0x0A]"
    by (metis append_butlast_last_id)
  with cl have "cl = (CHR ''#'' # butlast cs) @ [CHR 0x0A]"
    by simp
  moreover from len cl cs(1) have "length (CHR ''#'' # butlast cs) \<le> MAX_LENGTH"
    by simp
  ultimately show ?thesis
    using cs(3) that by blast
qed

lemma readline_comment:
  assumes "short_comment cl"
  shows "\<exists>line'. readline (cl @ nxt) line MAX_LENGTH = readline (skip_ws nxt) line' MAX_LENGTH"
proof -
  from assms obtain body where cl: "cl = (CHR ''#'' # body) @ [CHR 0x0A]"
    and body: "CHR 0x0A \<notin> set body" and len: "length (CHR ''#'' # body) \<le> MAX_LENGTH"
    by (rule short_comment_split)
  let ?l = "CHR ''#'' # body"
  have whole: "cl @ nxt = ?l @ (CHR 0x0A # nxt)"
    by (simp add: cl)
  have scan: "scanset MAX_LENGTH (?l @ (CHR 0x0A # nxt)) = ?l"
    using body len by (intro scanset_line) (simp_all add: line_end_def)
  have line: "line_after MAX_LENGTH (?l @ (CHR 0x0A # nxt)) line = c_str ?l"
    unfolding line_after_def scan by simp
  have stream: "stream_after MAX_LENGTH (?l @ (CHR 0x0A # nxt)) = skip_ws nxt"
    unfolding stream_after_def scan by (simp add: skip_ws_newline)
  have "is_comment (c_str ?l)"
    by (simp add: is_comment_def c_str_def)
  then have "readline (?l @ (CHR 0x0A # nxt)) line MAX_LENGTH
               = readline (skip_ws nxt) (c_str ?l) MAX_LENGTH"
    by (subst readline.simps) (simp only: line stream if_True)
  then show ?thesis
    unfolding whole by blast
qed

lemma comments_then_line_head:
  assumes "list_all short_comment cls" and "plain_line l"
  shows "concat cls @ l @ rest \<noteq> [] \<and> \<not> isspace (hd (concat cls @ l @ rest))"
proof (cases cls)
  case Nil
  with assms(2) show ?thesis
    by (simp add: plain_line_def)
next
  case (Cons cl cls')
  with assms(1) have "short_comment cl" by simp
  then obtain body where "cl = (CHR ''#'' # body) @ [CHR 0x0A]"
    by (rule short_comment_split)
  with Cons show ?thesis
    by (simp add: hash_not_space)
qed

lemma readline_comments_then_line:
  assumes "list_all short_comment cls" and "plain_line l" and "line_end rest"
  shows "readline (concat cls @ l @ rest) line MAX_LENGTH = Some (l, skip_ws rest)"
  using assms(1)
proof (induction cls arbitrary: line)
  case Nil
  show ?case
    using readline_plain_line [OF assms(2,3)] by simp
next
  case (Cons cl cls)
  from Cons.prems have cl: "short_comment cl" and cls: "list_all short_comment cls"
    by simp_all
  let ?nxt = "concat cls @ l @ rest"
  from readline_comment [OF cl, of ?nxt line] obtain line' where
    "readline (cl @ ?nxt) line MAX_LENGTH = readline (skip_ws ?nxt) line' MAX_LENGTH"
    by blast
  also have "skip_ws ?nxt = ?nxt"
    using comments_then_line_head [OF cls assms(2), of rest] by (intro skip_ws_id) simp_all
  also have "readline ?nxt line' MAX_LENGTH = Some (l, skip_ws rest)"
    by (rule Cons.IH [OF cls])
  finally show ?case
    by simp
qed

lemma skip_ws_next_line:
  assumes "list_all short_comment cls" and "plain_line l"
  shows "skip_ws (CHR 0x0A # concat cls @ l @ rest) = concat cls @ l @ rest"
  unfolding skip_ws_newline
  using comments_then_line_head [OF assms, of rest] by (intro skip_ws_id) simp_all

subsection \<open>The header of a plain source\<close>

lemma load_header_first_line:
  assumes "fopen_r fs filename = Some (concat cls @ l @ rest)"
    and "list_all short_comment cls" and "plain_line l" and "line_end rest"
  shows "load_header fs line0 filename =
           (if l = ''P3'' then header_dims (concat cls @ l @ rest) PPM_ASCII (skip_ws rest) l
            else if l = ''P6'' then header_dims (concat cls @ l @ rest) PPM_RAW (skip_ws rest) l
            else Some (Inl UnsupportedFormat))"
  using assms(1) readline_comments_then_line [OF assms(2,3,4), of line0]
  by (simp add: load_header_def)

lemma header_dims_line:
  assumes "list_all short_comment cls" and "plain_line l" and "line_end rest"
  shows "header_dims src ty (concat cls @ l @ rest) line =
           (case sscanf_u_u l of None \<Rightarrow> Some (Inl MalformedHeader)
            | Some (w, h) \<Rightarrow> header_maxval src ty w h (skip_ws rest) l)"
  using readline_comments_then_line [OF assms, of line]
  by (simp add: header_dims_def)

lemma header_maxval_line:
  assumes "list_all short_comment cls" and "plain_line l" and "line_end rest"
  shows "header_maxval src ty w h (concat cls @ l @ rest) line =
           (case sscanf_u l of None \<Rightarrow> Some (Inl MalformedHeader)
            | Some m \<Rightarrow>
                if 255 < m then Some (Inl UnsupportedRange)
                else Some (Inr \<lparr>type = ty, width = w, height = h, maxval = m,
                                data_offset = int (length src) - int (length (skip_ws rest))\<rparr>))"
  using readline_comments_then_line [OF assms, of line]
  by (simp add: header_maxval_def)

lemma tag_plain:
  "l = ''P3'' \<or> l = ''P6'' \<Longrightarrow> plain_line l"
  by (auto simp add: plain_line_def MAX_LENGTH_def isspace_def)

lemma line_end_newline:
  "line_end (CHR 0x0A # rest)"
  by (simp add: line_end_def)

lemma load_header_second_line:
  assumes "fopen_r fs filename = Some (concat cls1 @ l1 @ CHR 0x0A # concat cls2 @ l2 @ rest)"
    and "list_all short_comment cls1" and "l1 = ''P3'' \<or> l1 = ''P6''"
    and "list_all short_comment cls2" and "plain_line l2" and "line_end rest"
  shows "load_header fs line0 filename =
           (case sscanf_u_u l2 of None \<Rightarrow> Some (Inl MalformedHeader)
            | Some (w, h) \<Rightarrow>
                header_maxval (concat cls1 @ l1 @ CHR 0x0A # concat cls2 @ l2 @ rest)
                  (if l1 = ''P3'' then PPM_ASCII else PPM_RAW) w h (skip_ws rest) l2)"
proof -
  let ?src = "concat cls1 @ l1 @ CHR 0x0A # concat cls2 @ l2 @ rest"
  have first: "load_header fs line0 filename =
      header_dims ?src (if l1 = ''P3'' then PPM_ASCII else PPM_RAW)
        (skip_ws (CHR 0x0A # concat cls2 @ l2 @ rest)) l1"
    using load_header_first_line [OF assms(1,2) tag_plain [OF assms(3)] line_end_newline, of line0]
      assms(3)
    by auto
  show ?thesis
    unfolding first skip_ws_next_line [OF assms(4,5)]
    by (rule header_dims_line [OF assms(4,5,6)])
qed

text \<open>
  C8, as amended. A source that starts with short comment lines (or none) followed by
  a plain line whose trimmed content is neither "P6" nor "P3": \<open>load_header\<close> leaves
  through its unsupported-format exit, and so does \<open>load_ppm\<close>.
\<close>

theorem plain_unknown_tag_is_unsupported_format:
  assumes "fopen_r fs filename = Some (concat cls @ l @ rest)"
    and "list_all short_comment cls" and "plain_line l" and "line_end rest"
    and "trimmed l \<noteq> ''P6''" and "trimmed l \<noteq> ''P3''"
  shows "load_header fs line0 filename = Some (Inl UnsupportedFormat)
         \<and> load_ppm fs hp line0 filename = Some (Inl UnsupportedFormat)"
proof -
  from assms(5,6) have "l \<noteq> ''P6''" "l \<noteq> ''P3''"
    using tag_trimmed by blast+
  then have "load_header fs line0 filename = Some (Inl UnsupportedFormat)"
    using load_header_first_line [OF assms(1,2,3,4), of line0] by simp
  then show ?thesis
    by (simp add: load_ppm_header_failure)
qed

text \<open>
  C4, as amended. A source with short comment lines, a format tag line, short comment
  lines and a plain line that does not begin with two integers (see
  \<open>begins_two_integers\<close>): loading fails through the malformed-header exit.
\<close>

theorem plain_dims_line_without_two_integers_is_malformed:
  assumes "fopen_r fs filename = Some (concat cls1 @ l1 @ CHR 0x0A # concat cls2 @ l2 @ rest)"
    and "list_all short_comment cls1" and "l1 = ''P3'' \<or> l1 = ''P6''"
    and "list_all short_comment cls2" and "plain_line l2" and "line_end rest"
    and "\<not> begins_two_integers l2"
  shows "load_header fs line0 filename = Some (Inl MalformedHeader)
         \<and> load_ppm fs hp line0 filename = Some (Inl MalformedHeader)"
proof -
  from assms(7) have "sscanf_u_u l2 = None"
    by (simp add: sscanf_u_u_None_iff)
  then have "load_header fs line0 filename = Some (Inl MalformedHeader)"
    using load_header_second_line [OF assms(1-6), of line0] by simp
  then show ?thesis
    by (simp add: load_ppm_header_failure)
qed

subsection \<open>Numbers in the source\<close>












lemma load_header_third_line:
  assumes "fopen_r fs filename
             = Some (concat cls1 @ l1 @ CHR 0x0A # concat cls2 @ l2 @ CHR 0x0A # concat cls3 @ l3 @ rest)"
    and "list_all short_comment cls1" and "l1 = ''P3'' \<or> l1 = ''P6''"
    and "list_all short_comment cls2" and "plain_line l2" and "sscanf_u_u l2 = Some (w, h)"
    and "list_all short_comment cls3" and "plain_line l3" and "line_end rest"
  shows "load_header fs line0 filename =
           (case sscanf_u l3 of None \<Rightarrow> Some (Inl MalformedHeader)
            | Some m \<Rightarrow>
                if 255 < m then Some (Inl UnsupportedRange)
                else Some (Inr \<lparr>type = (if l1 = ''P3'' then PPM_ASCII else PPM_RAW),
                                width = w, height = h, maxval = m,
                                data_offset =
                                  int (length (concat cls1 @ l1 @ CHR 0x0A # concat cls2 @ l2
                                                 @ CHR 0x0A # concat cls3 @ l3 @ rest))
                                  - int (length (skip_ws rest))\<rparr>))"
proof -
  let ?src = "concat cls1 @ l1 @ CHR 0x0A # concat cls2 @ l2 @ CHR 0x0A # concat cls3 @ l3 @ rest"
  have second: "load_header fs line0 filename =
      header_maxval ?src (if l1 = ''P3'' then PPM_ASCII else PPM_RAW) w h
        (skip_ws (CHR 0x0A # concat cls3 @ l3 @ rest)) l2"
    using load_header_second_line [OF assms(1,2,3,4,5) line_end_newline, of line0] assms(6)
    by simp
  show ?thesis
    unfolding second skip_ws_next_line [OF assms(7,8)]
    by (rule header_maxval_line [OF assms(7,8,9)])
qed


subsection \<open>Instances\<close>

theorem plain_unknown_tag_is_unsupported_format_witness:
  "fopen_r (one_file ''in'' ''#c\<newline>P5\<newline>1 1\<newline>255\<newline>'') ''in''
     = Some (concat [''#c\<newline>''] @ ''P5'' @ ''\<newline>1 1\<newline>255\<newline>'')
   \<and> list_all short_comment [''#c\<newline>''] \<and> plain_line ''P5'' \<and> line_end ''\<newline>1 1\<newline>255\<newline>''
   \<and> trimmed ''P5'' \<noteq> ''P6'' \<and> trimmed ''P5'' \<noteq> ''P3''
   \<and> load_ppm (one_file ''in'' ''#c\<newline>P5\<newline>1 1\<newline>255\<newline>'') (small_heap junk_pixel) [] ''in''
       = Some (Inl UnsupportedFormat)"
proof -
  have h1: "fopen_r (one_file ''in'' ''#c\<newline>P5\<newline>1 1\<newline>255\<newline>'') ''in''
              = Some (concat [''#c\<newline>''] @ ''P5'' @ ''\<newline>1 1\<newline>255\<newline>'')"
    by (simp add: fopen_r_def one_file_def)
  have h2: "list_all short_comment [''#c\<newline>'']"
    by (simp add: shape_eval spec_eval MAX_LENGTH_def)
  have h3: "plain_line ''P5''"
    by (simp add: shape_eval libc_eval MAX_LENGTH_def)
  have h4: "line_end ''\<newline>1 1\<newline>255\<newline>''"
    by (simp add: line_end_def)
  have h5: "trimmed ''P5'' \<noteq> ''P6''" and h6: "trimmed ''P5'' \<noteq> ''P3''"
    by (simp_all add: libc_eval spec_eval)
  from plain_unknown_tag_is_unsupported_format [OF h1 h2 h3 h4 h5 h6, of "[]" "small_heap junk_pixel"]
  have "load_ppm (one_file ''in'' ''#c\<newline>P5\<newline>1 1\<newline>255\<newline>'') (small_heap junk_pixel) [] ''in''
          = Some (Inl UnsupportedFormat)"
    by (rule conjunct2)
  with h1 h2 h3 h4 h5 h6 show ?thesis
    by (intro conjI)
qed

text \<open>
  C8 as the spec states it fails: the first non-comment line of this source is "P6"
  followed by a NUL and junk, which trimmed is neither "P6" nor "P3", and the source is
  loaded as a binary 1x1 image (\<open>strcmp\<close> sees the line up to the NUL).
\<close>

theorem tag_line_with_nul_is_accepted:
  "hd (non_comment_lines (''P6'' @ [CHR 0x00] @ ''junk\<newline>1 1\<newline>255\<newline>ABC''))
     = ''P6'' @ [CHR 0x00] @ ''junk''
   \<and> trimmed (''P6'' @ [CHR 0x00] @ ''junk'') \<noteq> ''P6''
   \<and> trimmed (''P6'' @ [CHR 0x00] @ ''junk'') \<noteq> ''P3''
   \<and> load_ppm (one_file ''in'' (''P6'' @ [CHR 0x00] @ ''junk\<newline>1 1\<newline>255\<newline>ABC''))
         (small_heap junk_pixel) [] ''in''
       = Some (Inr \<lparr>width = 1, height = 1, pix1d = [\<lparr>r = 65, g = 66, b = 67\<rparr>]\<rparr>)"
proof (intro conjI)
  show "hd (non_comment_lines (''P6'' @ [CHR 0x00] @ ''junk\<newline>1 1\<newline>255\<newline>ABC''))
          = ''P6'' @ [CHR 0x00] @ ''junk''"
    by (simp add: source_lines_def non_comment_lines_def is_comment_def)
  show "trimmed (''P6'' @ [CHR 0x00] @ ''junk'') \<noteq> ''P6''"
    and "trimmed (''P6'' @ [CHR 0x00] @ ''junk'') \<noteq> ''P3''"
    by (simp_all add: trimmed_def libc_eval)
  show "load_ppm (one_file ''in'' (''P6'' @ [CHR 0x00] @ ''junk\<newline>1 1\<newline>255\<newline>ABC''))
         (small_heap junk_pixel) [] ''in''
       = Some (Inr \<lparr>width = 1, height = 1, pix1d = [\<lparr>r = 65, g = 66, b = 67\<rparr>]\<rparr>)"
    by (simp add: libc_eval ppm_eval env_eval)
qed

theorem plain_dims_line_without_two_integers_is_malformed_witness:
  "fopen_r (one_file ''in'' ''P3\<newline># size\<newline>12 x\<newline>255\<newline>'') ''in''
     = Some (concat [] @ ''P3'' @ CHR 0x0A # concat [''# size\<newline>''] @ ''12 x'' @ ''\<newline>255\<newline>'')
   \<and> list_all short_comment [''# size\<newline>''] \<and> plain_line ''12 x'' \<and> line_end ''\<newline>255\<newline>''
   \<and> \<not> begins_two_integers ''12 x''
   \<and> load_ppm (one_file ''in'' ''P3\<newline># size\<newline>12 x\<newline>255\<newline>'') (small_heap junk_pixel) [] ''in''
       = Some (Inl MalformedHeader)"
proof -
  have h1: "fopen_r (one_file ''in'' ''P3\<newline># size\<newline>12 x\<newline>255\<newline>'') ''in''
     = Some (concat [] @ ''P3'' @ CHR 0x0A # concat [''# size\<newline>''] @ ''12 x'' @ ''\<newline>255\<newline>'')"
    by (simp add: fopen_r_def one_file_def)
  have h2: "list_all short_comment []"
    by simp
  have h3: "''P3'' = ''P3'' \<or> ''P3'' = ''P6''"
    by simp
  have h4: "list_all short_comment [''# size\<newline>'']"
    by (simp add: shape_eval spec_eval MAX_LENGTH_def)
  have h5: "plain_line ''12 x''"
    by (simp add: shape_eval libc_eval MAX_LENGTH_def)
  have h6: "line_end ''\<newline>255\<newline>''"
    by (simp add: line_end_def)
  have h7: "\<not> begins_two_integers ''12 x''"
    by (simp add: libc_eval spec_eval)
  from plain_dims_line_without_two_integers_is_malformed [OF h1 h2 h3 h4 h5 h6 h7,
      of "[]" "small_heap junk_pixel"]
  have "load_ppm (one_file ''in'' ''P3\<newline># size\<newline>12 x\<newline>255\<newline>'') (small_heap junk_pixel) [] ''in''
          = Some (Inl MalformedHeader)"
    by (rule conjunct2)
  with h1 h4 h5 h6 h7 show ?thesis
    by (intro conjI)
qed



text \<open>
  C4 as the spec states it fails: the dimensions line "1 1 7" has three tokens, not
  two, and the header is accepted, as a 1x1 image.
\<close>

theorem three_tokens_dims_line_is_accepted:
  "header_stream 2 ''P6\<newline>1 1 7\<newline>255\<newline>'' [] = Some (''1 1 7'', ''255\<newline>'')
   \<and> tokens ''1 1 7'' = [''1'', ''1'', ''7''] \<and> \<not> two_integers ''1 1 7''
   \<and> load_header (one_file ''in'' ''P6\<newline>1 1 7\<newline>255\<newline>'') [] ''in''
       = Some (Inr \<lparr>type = PPM_RAW, width = 1, height = 1, maxval = 255, data_offset = 13\<rparr>)"
  by (simp add: libc_eval ppm_eval spec_eval env_eval)

section \<open>The text encoding of the pixels\<close>

lemma isdigit_digit_char:
  "d < 10 \<Longrightarrow> isdigit (digit_char d)"
  by (simp add: isdigit_def digit_char_def)

lemma print_u_digits:
  "c \<in> set (print_u n) \<Longrightarrow> isdigit c"
proof (induction n rule: print_u.induct)
  case (1 n)
  show ?case
  proof (cases "n < 10")
    case True
    with "1.prems" show ?thesis
      by (simp add: print_u.simps [of n] isdigit_digit_char)
  next
    case False
    with "1.prems" "1.IH" show ?thesis
      by (auto simp add: print_u.simps [of n] isdigit_digit_char)
  qed
qed

lemma newline_not_digit:
  "\<not> isdigit (CHR 0x0A)"
  by (simp add: isdigit_def)

lemma print_d_uint_no_newline:
  "CHR 0x0A \<notin> set (print_d (uint (w :: 8 word)))"
  using print_u_digits [of "CHR 0x0A"] newline_not_digit
  by (auto simp add: print_d_def)

lemma fprintf_pixel_no_newline:
  "count_list (fprintf_pixel p) (CHR 0x0A) = 0"
  by (simp add: fprintf_pixel_def print_d_uint_no_newline)

lemma write_ascii_from:
  assumes "sint (width img * height img) = int (length (pix1d img))"
  shows "j \<le> length (pix1d img) \<Longrightarrow>
         write_ascii img (int j) c =
           concat (map (\<lambda>k. fprintf_pixel (pix1d img ! k)
                          @ (if (c + int (k - j) + 1) mod 5 = 0 then [CHR 0x0A] else []))
                    [j ..< length (pix1d img)])"
proof (induction "length (pix1d img) - j" arbitrary: j c)
  case 0
  then show ?case
    using assms by (simp add: write_ascii.simps [of img "int j"])
next
  case (Suc d)
  then have less: "j < length (pix1d img)" by simp
  have step: "write_ascii img (int j) c =
      fprintf_pixel (pix1d img ! j) @ (if (c + 1) mod 5 = 0 then [CHR 0x0A] else [])
        @ write_ascii img (int (Suc j)) (c + 1)"
    using assms less by (simp add: write_ascii.simps [of img "int j"] add.commute)
  have ih: "write_ascii img (int (Suc j)) (c + 1) =
      concat (map (\<lambda>k. fprintf_pixel (pix1d img ! k)
                     @ (if (c + 1 + int (k - Suc j) + 1) mod 5 = 0 then [CHR 0x0A] else []))
               [Suc j ..< length (pix1d img)])"
    using Suc.hyps(2) less by (intro Suc.hyps(1)) simp_all
  have same: "map (\<lambda>k. fprintf_pixel (pix1d img ! k)
                     @ (if (c + 1 + int (k - Suc j) + 1) mod 5 = 0 then [CHR 0x0A] else []))
               [Suc j ..< length (pix1d img)]
            = map (\<lambda>k. fprintf_pixel (pix1d img ! k)
                     @ (if (c + int (k - j) + 1) mod 5 = 0 then [CHR 0x0A] else []))
               [Suc j ..< length (pix1d img)]"
  proof (rule map_cong [OF refl])
    fix k assume "k \<in> set [Suc j ..< length (pix1d img)]"
    then have "Suc j \<le> k" by simp
    then have "c + 1 + int (k - Suc j) + 1 = c + int (k - j) + 1" by (simp add: of_nat_diff)
    then show "fprintf_pixel (pix1d img ! k)
                 @ (if (c + 1 + int (k - Suc j) + 1) mod 5 = 0 then [CHR 0x0A] else [])
             = fprintf_pixel (pix1d img ! k)
                 @ (if (c + int (k - j) + 1) mod 5 = 0 then [CHR 0x0A] else [])"
      by simp
  qed
  have "[j ..< length (pix1d img)] = j # [Suc j ..< length (pix1d img)]"
    using less by (simp add: upt_conv_Cons)
  then show ?case
    unfolding step ih same by simp
qed

lemma mod5_int_nat:
  "(int k + 1) mod 5 = 0 \<longleftrightarrow> Suc k mod 5 = 0"
proof -
  have "int (Suc k mod 5) = (int k + 1) mod 5"
    by (simp add: zmod_int add.commute)
  then show ?thesis
    by (metis of_nat_eq_0_iff)
qed

lemma upt_12:
  "[0 ..< 12] = [0, 1, 2, 3, 4, 5, 6, 7, 8, 9, 10, 11 :: nat]"
  by (simp add: upt_conv_Cons)

lemma write_ascii_block:
  assumes "sint (width img * height img) = int (length (pix1d img))"
  shows "write_ascii img 0 0 =
           concat (map (\<lambda>k. fprintf_pixel (pix1d img ! k)
                          @ (if Suc k mod 5 = 0 then [CHR 0x0A] else []))
                    [0 ..< length (pix1d img)])"
  using write_ascii_from [OF assms, of 0 0] by (simp add: mod5_int_nat)

lemma count_newlines_block:
  "count_list (concat (map (\<lambda>k. fprintf_pixel (pix ! k)
                          @ (if Suc k mod 5 = 0 then [CHR 0x0A] else [])) [0 ..< n]))
     (CHR 0x0A) = n div 5"
  by (induction n) (simp_all add: fprintf_pixel_no_newline div_Suc)


text \<open>
  C7. The pixel block that \<open>write_ppm\<close> writes in the text variant is, pixel after
  pixel in the order of \<open>pix1d\<close>, the text of the pixel followed by a newline exactly
  when the number of pixels written so far is a multiple of 5; the width of the image
  plays no part. The block of a 12-pixel image has two newlines, one after the fifth
  and one after the tenth pixel, and ends with the text of the twelfth pixel.
\<close>

theorem write_ascii_newline_cadence:
  assumes "sint (width img * height img) = int (length (pix1d img))"
  shows "(\<not> locked fs filename \<longrightarrow>
            data (snd (write_ppm fs filename img PPM_ASCII)) filename
              = Some (fprintf_header ''P3'' img @ write_ascii img 0 0))
         \<and> write_ascii img 0 0 =
             concat (map (\<lambda>k. fprintf_pixel (pix1d img ! k)
                            @ (if Suc k mod 5 = 0 then [CHR 0x0A] else []))
                      [0 ..< length (pix1d img)])
         \<and> count_list (write_ascii img 0 0) (CHR 0x0A) = length (pix1d img) div 5
         \<and> (length (pix1d img) = 12 \<longrightarrow>
              count_list (write_ascii img 0 0) (CHR 0x0A) = 2
              \<and> write_ascii img 0 0 =
                  fprintf_pixel (pix1d img ! 0) @ fprintf_pixel (pix1d img ! 1)
                  @ fprintf_pixel (pix1d img ! 2) @ fprintf_pixel (pix1d img ! 3)
                  @ fprintf_pixel (pix1d img ! 4) @ [CHR 0x0A]
                  @ fprintf_pixel (pix1d img ! 5) @ fprintf_pixel (pix1d img ! 6)
                  @ fprintf_pixel (pix1d img ! 7) @ fprintf_pixel (pix1d img ! 8)
                  @ fprintf_pixel (pix1d img ! 9) @ [CHR 0x0A]
                  @ fprintf_pixel (pix1d img ! 10) @ fprintf_pixel (pix1d img ! 11))"
proof -
  have written: "\<not> locked fs filename \<longrightarrow>
            data (snd (write_ppm fs filename img PPM_ASCII)) filename
              = Some (fprintf_header ''P3'' img @ write_ascii img 0 0)"
    by (simp add: write_ppm_def fopen_w_def)
  note block = write_ascii_block [OF assms]
  have count: "count_list (write_ascii img 0 0) (CHR 0x0A) = length (pix1d img) div 5"
    unfolding block by (rule count_newlines_block)
  have twelve: "write_ascii img 0 0 =
                  fprintf_pixel (pix1d img ! 0) @ fprintf_pixel (pix1d img ! 1)
                  @ fprintf_pixel (pix1d img ! 2) @ fprintf_pixel (pix1d img ! 3)
                  @ fprintf_pixel (pix1d img ! 4) @ [CHR 0x0A]
                  @ fprintf_pixel (pix1d img ! 5) @ fprintf_pixel (pix1d img ! 6)
                  @ fprintf_pixel (pix1d img ! 7) @ fprintf_pixel (pix1d img ! 8)
                  @ fprintf_pixel (pix1d img ! 9) @ [CHR 0x0A]
                  @ fprintf_pixel (pix1d img ! 10) @ fprintf_pixel (pix1d img ! 11)"
    if "length (pix1d img) = 12"
    unfolding block that upt_12 by simp
  have two: "count_list (write_ascii img 0 0) (CHR 0x0A) = 2" if "length (pix1d img) = 12"
    using count that by simp
  show ?thesis
    by (intro conjI impI)
       (rule written [THEN mp], assumption, rule block, rule count, erule two, erule twelve)
qed

theorem write_ascii_newline_cadence_witness:
  "sint ((3 :: 32 word) * 4) = int (length (replicate 12 junk_pixel))
   \<and> length (replicate 12 junk_pixel) = 12
   \<and> count_list
        (write_ascii \<lparr>width = 3, height = 4, pix1d = replicate 12 junk_pixel\<rparr> 0 0) (CHR 0x0A) = 2"
proof -
  have wf: "sint (width \<lparr>width = 3, height = 4, pix1d = replicate 12 junk_pixel\<rparr>
                  * height \<lparr>width = 3, height = 4, pix1d = replicate 12 junk_pixel\<rparr>)
              = int (length (pix1d \<lparr>width = 3, height = 4, pix1d = replicate 12 junk_pixel\<rparr>))"
    by simp
  have twelve: "length (pix1d \<lparr>width = 3, height = 4, pix1d = replicate 12 junk_pixel\<rparr>) = 12"
    by simp
  note cadence = write_ascii_newline_cadence [OF wf, where fs = "one_file [] []" and filename = "[]"]
  have "count_list
        (write_ascii \<lparr>width = 3, height = 4, pix1d = replicate 12 junk_pixel\<rparr> 0 0) (CHR 0x0A) = 2"
    by (rule cadence [THEN conjunct2, THEN conjunct2, THEN conjunct2, THEN mp, OF twelve,
          THEN conjunct1])
  then show ?thesis by simp
qed

section \<open>Decoding the pixels\<close>









lemma length_load_raw:
  "length (load_raw n i f pix) = length pix"
  by (induction n i f pix rule: load_raw.induct) (simp add: load_raw.simps)






section \<open>What the caller sees of a failure\<close>







section \<open>Comment lines in the header\<close>

lemma load_header_plain:
  assumes "fopen_r fs filename
             = Some (concat cls1 @ l1 @ CHR 0x0A # concat cls2 @ l2 @ CHR 0x0A # concat cls3 @ l3 @ rest)"
    and "list_all short_comment cls1" and "l1 = ''P3'' \<or> l1 = ''P6''"
    and "list_all short_comment cls2" and "plain_line l2"
    and "list_all short_comment cls3" and "plain_line l3" and "line_end rest"
  shows "load_header fs line0 filename =
           (case sscanf_u_u l2 of None \<Rightarrow> Some (Inl MalformedHeader)
            | Some (w, h) \<Rightarrow>
                (case sscanf_u l3 of None \<Rightarrow> Some (Inl MalformedHeader)
                 | Some m \<Rightarrow>
                     if 255 < m then Some (Inl UnsupportedRange)
                     else Some (Inr \<lparr>type = (if l1 = ''P3'' then PPM_ASCII else PPM_RAW),
                                     width = w, height = h, maxval = m,
                                     data_offset =
                                       int (length (concat cls1 @ l1 @ CHR 0x0A # concat cls2 @ l2
                                                      @ CHR 0x0A # concat cls3 @ l3 @ rest))
                                       - int (length (skip_ws rest))\<rparr>)))"
proof (cases "sscanf_u_u l2")
  case None
  then show ?thesis
    using load_header_second_line [OF assms(1,2,3,4,5) line_end_newline, of line0] by simp
next
  case (Some wh)
  then obtain w h where dims: "sscanf_u_u l2 = Some (w, h)"
    by (cases wh) simp
  show ?thesis
    using load_header_third_line [OF assms(1,2,3,4,5) dims assms(6,7,8), of line0]
    by (simp add: dims)
qed

lemma accepted_tag:
  assumes "fopen_r fs filename = Some (concat cls @ l @ rest)"
    and "list_all short_comment cls" and "plain_line l" and "line_end rest"
    and "load_header fs line0 filename = Some (Inr header)"
  shows "l = ''P3'' \<or> l = ''P6''"
  using load_header_first_line [OF assms(1,2,3,4), of line0] assms(5)
  by (auto split: if_splits)

lemma scanset_full:
  assumes "CHR 0x0A \<notin> set l" and "length l = n"
  shows "scanset n (l @ rest) = l"
proof -
  have "takeWhile (\<lambda>c. c \<noteq> CHR 0x0A) (l @ rest) = l @ takeWhile (\<lambda>c. c \<noteq> CHR 0x0A) rest"
    using assms(1) by (intro takeWhile_append2) auto
  with assms(2) show ?thesis
    by (simp add: scanset_def)
qed

lemma readline_long_comment:
  assumes "CHR 0x0A \<notin> set body" and "length (CHR ''#'' # body) = MAX_LENGTH"
  shows "readline ((CHR ''#'' # body) @ nxt) line MAX_LENGTH
           = readline (skip_ws nxt) (c_str (CHR ''#'' # body)) MAX_LENGTH"
proof -
  let ?l = "CHR ''#'' # body"
  have scan: "scanset MAX_LENGTH (?l @ nxt) = ?l"
    using assms by (intro scanset_full) simp_all
  have line: "line_after MAX_LENGTH (?l @ nxt) line = c_str ?l"
    unfolding line_after_def scan by simp
  have stream: "stream_after MAX_LENGTH (?l @ nxt) = skip_ws nxt"
    unfolding stream_after_def scan by simp
  have "is_comment (c_str ?l)"
    by (simp add: is_comment_def c_str_def)
  then show ?thesis
    by (subst readline.simps) (simp only: line stream if_True)
qed

text \<open>
  C10, as amended. A source with a plain header that \<open>load_header\<close> accepts, and the
  source with short comment lines \<open>ins1\<close>, \<open>ins2\<close>, \<open>ins3\<close> inserted before its format tag
  line, its dimensions line and its maximum-value line (among the comment lines that
  are there already): \<open>load_header\<close> accepts it too, with the same type, width, height
  and maximum value; the pixel data starts later by the length of what was inserted.
\<close>

theorem short_comment_lines_keep_the_header:
  assumes "fopen_r fs filename
             = Some (concat (a1 @ b1) @ l1 @ CHR 0x0A # concat (a2 @ b2) @ l2
                       @ CHR 0x0A # concat (a3 @ b3) @ l3 @ rest)"
    and "fopen_r fs' filename'
           = Some (concat (a1 @ ins1 @ b1) @ l1 @ CHR 0x0A # concat (a2 @ ins2 @ b2) @ l2
                     @ CHR 0x0A # concat (a3 @ ins3 @ b3) @ l3 @ rest)"
    and "list_all short_comment (a1 @ ins1 @ b1)"
    and "list_all short_comment (a2 @ ins2 @ b2)"
    and "list_all short_comment (a3 @ ins3 @ b3)"
    and "plain_line l1" and "plain_line l2" and "plain_line l3" and "line_end rest"
    and "load_header fs line0 filename = Some (Inr header)"
  shows "\<exists>header'. load_header fs' line0' filename' = Some (Inr header')
           \<and> type header' = type header
           \<and> ppm_header_t.width header' = ppm_header_t.width header
           \<and> ppm_header_t.height header' = ppm_header_t.height header
           \<and> maxval header' = maxval header
           \<and> data_offset header' = data_offset header + int (length (concat (ins1 @ ins2 @ ins3)))"
proof -
  from assms(3,4,5) have
    old: "list_all short_comment (a1 @ b1)" "list_all short_comment (a2 @ b2)"
      "list_all short_comment (a3 @ b3)"
    by simp_all
  have tag: "l1 = ''P3'' \<or> l1 = ''P6''"
    using assms(1) old(1) assms(6) line_end_newline assms(10) by (rule accepted_tag)
  note before = load_header_plain [OF assms(1) old(1) tag old(2) assms(7) old(3) assms(8,9), of line0]
  note after = load_header_plain [OF assms(2,3) tag assms(4,7,5,8,9), of line0']
  from before assms(10) obtain w h m where
    dims: "sscanf_u_u l2 = Some (w, h)" and m: "sscanf_u l3 = Some m" and range: "\<not> 255 < m"
    by (auto split: option.splits if_splits)
  from before assms(10) dims m range have
    header: "header = \<lparr>type = (if l1 = ''P3'' then PPM_ASCII else PPM_RAW),
                       width = w, height = h, maxval = m,
                       data_offset =
                         int (length (concat (a1 @ b1) @ l1 @ CHR 0x0A # concat (a2 @ b2) @ l2
                                        @ CHR 0x0A # concat (a3 @ b3) @ l3 @ rest))
                         - int (length (skip_ws rest))\<rparr>"
    by simp
  from after dims m range have
    "load_header fs' line0' filename' =
       Some (Inr \<lparr>type = (if l1 = ''P3'' then PPM_ASCII else PPM_RAW),
                  width = w, height = h, maxval = m,
                  data_offset =
                    int (length (concat (a1 @ ins1 @ b1) @ l1 @ CHR 0x0A # concat (a2 @ ins2 @ b2) @ l2
                                   @ CHR 0x0A # concat (a3 @ ins3 @ b3) @ l3 @ rest))
                    - int (length (skip_ws rest))\<rparr>)"
    by simp
  with header show ?thesis
    by simp
qed


theorem short_comment_lines_keep_the_header_witness:
  "load_header (one_file ''in'' ''P6\<newline># size\<newline>1 1\<newline>255\<newline>ABC'') [] ''in''
     = Some (Inr \<lparr>type = PPM_RAW, width = 1, height = 1, maxval = 255, data_offset = 18\<rparr>)
   \<and> list_all short_comment [''#a\<newline>'', ''# note\<newline>'', ''# more\<newline>'', ''# size\<newline>'', ''#\<newline>'']
   \<and> (\<exists>header'.
         load_header
           (one_file ''in'' ''#a\<newline>P6\<newline># note\<newline># more\<newline># size\<newline>1 1\<newline>#\<newline>255\<newline>ABC'') [] ''in''
           = Some (Inr header')
         \<and> type header' = PPM_RAW
         \<and> ppm_header_t.width header' = 1 \<and> ppm_header_t.height header' = 1
         \<and> maxval header' = 255 \<and> data_offset header' = 18 + 19)"
proof -
  let ?h = "\<lparr>type = PPM_RAW, width = 1, height = 1, maxval = 255, data_offset = 18\<rparr>"
  have h1: "fopen_r (one_file ''in'' ''P6\<newline># size\<newline>1 1\<newline>255\<newline>ABC'') ''in''
              = Some (concat ([] @ []) @ ''P6'' @ CHR 0x0A # concat ([] @ [''# size\<newline>'']) @ ''1 1''
                        @ CHR 0x0A # concat ([] @ []) @ ''255'' @ ''\<newline>ABC'')"
    by (simp add: fopen_r_def one_file_def)
  have h2: "fopen_r
              (one_file ''in'' ''#a\<newline>P6\<newline># note\<newline># more\<newline># size\<newline>1 1\<newline>#\<newline>255\<newline>ABC'') ''in''
              = Some (concat ([] @ [''#a\<newline>''] @ []) @ ''P6''
                        @ CHR 0x0A # concat ([] @ [''# note\<newline>'', ''# more\<newline>''] @ [''# size\<newline>'']) @ ''1 1''
                        @ CHR 0x0A # concat ([] @ [''#\<newline>''] @ []) @ ''255'' @ ''\<newline>ABC'')"
    by (simp add: fopen_r_def one_file_def)
  have h3: "list_all short_comment ([] @ [''#a\<newline>''] @ [])"
    by (simp add: short_comment_def comment_line_def MAX_LENGTH_def)
  have h4: "list_all short_comment ([] @ [''# note\<newline>'', ''# more\<newline>''] @ [''# size\<newline>''])"
    by (simp add: short_comment_def comment_line_def MAX_LENGTH_def)
  have h5: "list_all short_comment ([] @ [''#\<newline>''] @ [])"
    by (simp add: short_comment_def comment_line_def MAX_LENGTH_def)
  have h6: "plain_line ''P6''" and h7: "plain_line ''1 1''" and h8: "plain_line ''255''"
    by (simp_all add: plain_line_def isspace_def MAX_LENGTH_def)
  have h9: "line_end ''\<newline>ABC''"
    by (simp add: line_end_def)
  have h10: "load_header (one_file ''in'' ''P6\<newline># size\<newline>1 1\<newline>255\<newline>ABC'') [] ''in'' = Some (Inr ?h)"
    by (simp add: libc_eval ppm_eval env_eval)
  from short_comment_lines_keep_the_header [OF h1 h2 h3 h4 h5 h6 h7 h8 h9 h10, of "[]"]
  have "\<exists>header'.
         load_header
           (one_file ''in'' ''#a\<newline>P6\<newline># note\<newline># more\<newline># size\<newline>1 1\<newline>#\<newline>255\<newline>ABC'') [] ''in''
           = Some (Inr header')
         \<and> type header' = PPM_RAW
         \<and> ppm_header_t.width header' = 1 \<and> ppm_header_t.height header' = 1
         \<and> maxval header' = 255 \<and> data_offset header' = 18 + 19"
    by simp
  moreover have "list_all short_comment
     [''#a\<newline>'', ''# note\<newline>'', ''# more\<newline>'', ''# size\<newline>'', ''#\<newline>'']"
    by (simp add: short_comment_def comment_line_def MAX_LENGTH_def)
  ultimately show ?thesis
    using h10 by (intro conjI)
qed

text \<open>
  C10 as the spec states it fails: the comment line inserted before the dimensions
  line of an accepted source has 1027 characters; \<open>readline\<close> takes its first 1024 for
  the comment and its last three, "7 7", for the dimensions line, and the line "1 1"
  for the maximum value.
\<close>

theorem long_comment_line_changes_the_header:
  "load_header (one_file ''in'' ''P6\<newline>1 1\<newline>255\<newline>'') [] ''in''
     = Some (Inr \<lparr>type = PPM_RAW, width = 1, height = 1, maxval = 255, data_offset = 11\<rparr>)
   \<and> comment_line ((CHR ''#'' # replicate 1023 (CHR ''x'')) @ ''7 7\<newline>'')
   \<and> load_header
        (one_file ''in''
           (''P6\<newline>'' @ ((CHR ''#'' # replicate 1023 (CHR ''x'')) @ ''7 7\<newline>'') @ ''1 1\<newline>255\<newline>''))
        [] ''in''
     = Some (Inr \<lparr>type = PPM_RAW, width = 7, height = 7, maxval = 1, data_offset = 1035\<rparr>)"
proof (intro conjI)
  let ?long = "CHR ''#'' # replicate 1023 (CHR ''x'')"
  let ?src = "''P6\<newline>'' @ (?long @ ''7 7\<newline>'') @ ''1 1\<newline>255\<newline>''"
  show "load_header (one_file ''in'' ''P6\<newline>1 1\<newline>255\<newline>'') [] ''in''
     = Some (Inr \<lparr>type = PPM_RAW, width = 1, height = 1, maxval = 255, data_offset = 11\<rparr>)"
    by (simp add: libc_eval ppm_eval env_eval)
  show "comment_line (?long @ ''7 7\<newline>'')"
    by (simp add: comment_line_def butlast_append)
  have first: "readline (''P6'' @ (CHR 0x0A # ?long @ ''7 7\<newline>1 1\<newline>255\<newline>'')) [] MAX_LENGTH
                 = Some (''P6'', ?long @ ''7 7\<newline>1 1\<newline>255\<newline>'')"
    using readline_plain_line [OF tag_plain line_end_newline,
        of "''P6''" "?long @ ''7 7\<newline>1 1\<newline>255\<newline>''" "[]"]
    by (simp add: skip_ws_newline skip_ws_id hash_not_space)
  have comment: "readline (?long @ ''7 7\<newline>1 1\<newline>255\<newline>'') ''P6'' MAX_LENGTH
                   = readline (''7 7'' @ ''\<newline>1 1\<newline>255\<newline>'') (c_str ?long) MAX_LENGTH"
    using readline_long_comment [of "replicate 1023 (CHR ''x'')" "''7 7\<newline>1 1\<newline>255\<newline>''" "''P6''"]
    by (simp add: MAX_LENGTH_def skip_ws_def isspace_def)
  have l2: "plain_line ''7 7''" and l3: "plain_line ''1 1''"
    by (simp_all add: plain_line_def isspace_def MAX_LENGTH_def)
  have second: "readline (?long @ ''7 7\<newline>1 1\<newline>255\<newline>'') ''P6'' MAX_LENGTH
                  = Some (''7 7'', ''1 1\<newline>255\<newline>'')"
    unfolding comment
    using readline_plain_line [OF l2 line_end_newline, of "''1 1\<newline>255\<newline>''" "c_str ?long"]
    by (simp add: skip_ws_def isspace_def)
  have third: "readline (''1 1'' @ ''\<newline>255\<newline>'') ''7 7'' MAX_LENGTH = Some (''1 1'', ''255\<newline>'')"
    using readline_plain_line [OF l3 line_end_newline, of "''255\<newline>''" "''7 7''"]
    by (simp add: skip_ws_def isspace_def)
  have dims: "sscanf_u_u ''7 7'' = Some (7, 7)"
    by (simp add: libc_eval)
  have m: "sscanf_u ''1 1'' = Some 1"
    by (simp add: libc_eval)
  have src: "fopen_r (one_file ''in'' ?src) ''in'' = Some ?src"
    by (simp add: fopen_r_def one_file_def)
  have "header_maxval ?src PPM_RAW 7 7 ''1 1\<newline>255\<newline>'' ''7 7''
          = Some (Inr \<lparr>type = PPM_RAW, width = 7, height = 7, maxval = 1, data_offset = 1035\<rparr>)"
    using third by (simp add: header_maxval_def m)
  then have "header_dims ?src PPM_RAW (?long @ ''7 7\<newline>1 1\<newline>255\<newline>'') ''P6''
          = Some (Inr \<lparr>type = PPM_RAW, width = 7, height = 7, maxval = 1, data_offset = 1035\<rparr>)"
    using second by (simp add: header_dims_def dims)
  then show "load_header (one_file ''in'' ?src) [] ''in''
     = Some (Inr \<lparr>type = PPM_RAW, width = 7, height = 7, maxval = 1, data_offset = 1035\<rparr>)"
    using first src by (simp add: load_header_def)
qed

end
